theory Spec2Isabelle
  imports Main "HOL-Library.Multiset"
begin

section \<open>rawcheck: the task queue\<close>

text \<open>
  The class \<open>Queue\<close> of \<open>rawcheck.py\<close> holds a list \<open>_data\<close> and a flag
  \<open>_completed\<close>; its semaphore and its condition variable only order the accesses of
  the threads and carry no data of their own. The record below is the data of one queue
  object. The functions of this section give each method as one thread sees it when no
  other thread touches the queue during the call; the threads running against each other
  are the subject of a later section, where the same methods are cut into their atomic
  steps.
\<close>

record 'a queue =
  q_data :: "'a list"
  q_completed :: bool

definition Queue_init :: "'a queue" where
  "Queue_init = \<lparr>q_data = [], q_completed = False\<rparr>"

text \<open>\<open>push\<close>: \<open>self._data.append(entry)\<close>, then \<open>notify_all\<close>.\<close>

definition push :: "'a \<Rightarrow> 'a queue \<Rightarrow> 'a queue" where
  "push entry q = q\<lparr>q_data := q_data q @ [entry]\<rparr>"

text \<open>
  \<open>pop\<close> returns an entry, or \<open>None\<close>, or does not return: on an empty queue whose
  flag is not set the caller reaches \<open>self._cond.wait()\<close>, and with no other thread to
  notify it stays there.
\<close>

datatype 'a pop_result = Returns "'a option" | Waits

definition pop :: "'a queue \<Rightarrow> 'a pop_result \<times> 'a queue" where
  "pop q =
     (case q_data q of
        x # rest \<Rightarrow> (Returns (Some x), q\<lparr>q_data := rest\<rparr>)
      | [] \<Rightarrow> if \<not> q_completed q then (Waits, q) else (Returns None, q))"

text \<open>The method \<open>completed\<close> sets the flag (and notifies); \<open>clear\<close> replaces the list.\<close>

definition completed :: "'a queue \<Rightarrow> 'a queue" where
  "completed q = q\<lparr>q_completed := True\<rparr>"

definition clear :: "'a queue \<Rightarrow> 'a queue" where
  "clear q = q\<lparr>q_data := []\<rparr>"

text \<open>\<open>pops n q\<close> calls \<open>pop\<close> up to \<open>n\<close> times in a row, stopping at a call that waits.\<close>

fun pops :: "nat \<Rightarrow> 'a queue \<Rightarrow> 'a pop_result list \<times> 'a queue" where
  "pops 0 q = ([], q)"
| "pops (Suc n) q =
     (case pop q of
        (Waits, q') \<Rightarrow> ([Waits], q')
      | (Returns r, q') \<Rightarrow> (case pops n q' of (rs, q'') \<Rightarrow> (Returns r # rs, q'')))"

section \<open>Python values the program uses\<close>

text \<open>
  A Python \<open>str\<close> is a sequence of code points; it is modelled as a \<open>string\<close> whose
  characters are the code points, so the model covers text of code points below 256
  (\<open>len\<close>, slicing, \<open>startswith\<close>, \<open>strip\<close> and \<open>lower\<close> all count and map
  code points). A \<open>dict\<close> keeps its keys in insertion order, which \<open>items()\<close> and the
  printing loops follow: it is an association list without repeated keys.
\<close>

datatype error =
    AppError string
  | KeyboardInterrupt
  | OSError
  | UnicodeDecodeError
  | TypeError
  | AttributeError
  | RuntimeError

datatype pyval = PyNone | PyBool bool

fun truthy :: "pyval \<Rightarrow> bool" where
  "truthy PyNone = False"
| "truthy (PyBool b) = b"

type_synonym 'v dict = "(string \<times> 'v) list"

text \<open>\<open>d[k] = v\<close>: an existing key keeps its place, a new key goes to the end.\<close>

fun dict_set :: "string \<Rightarrow> 'v \<Rightarrow> 'v dict \<Rightarrow> 'v dict" where
  "dict_set k v [] = [(k, v)]"
| "dict_set k v ((k', v') # d) = (if k = k' then (k, v) # d else (k', v') # dict_set k v d)"

definition dict_get :: "'v dict \<Rightarrow> string \<Rightarrow> 'v option" where
  "dict_get d k = map_of d k"

definition dict_keys :: "'v dict \<Rightarrow> string list" where
  "dict_keys d = map fst d"

text \<open>
  \<open>str.strip()\<close> removes the white space at both ends; below code point 256 the
  white-space characters of Python are 9 to 13, 28 to 32, 133 and 160.
\<close>

definition isspace :: "char \<Rightarrow> bool" where
  "isspace c = ((of_char c :: nat) \<in> {9, 10, 11, 12, 13, 28, 29, 30, 31, 32, 133, 160})"

definition strip :: "string \<Rightarrow> string" where
  "strip s = rev (dropWhile isspace (rev (dropWhile isspace s)))"

definition startswith :: "string \<Rightarrow> string \<Rightarrow> bool" where
  "startswith s p = (take (length p) s = p)"

text \<open>
  \<open>str.lower()\<close>: below code point 256 the upper-case letters are A to Z (65 to 90),
  192 to 214 and 216 to 222, each 32 below its lower-case form.
\<close>

definition lower_char :: "char \<Rightarrow> char" where
  "lower_char c =
     (let n = (of_char c :: nat)
      in if (65 \<le> n \<and> n \<le> 90) \<or> (192 \<le> n \<and> n \<le> 214) \<or> (216 \<le> n \<and> n \<le> 222)
         then char_of (n + 32) else c)"

definition lower :: "string \<Rightarrow> string" where
  "lower s = map lower_char s"

text \<open>\<open>str(n)\<close> for a natural number, as the f-strings print counts and thread numbers.\<close>

definition digit_char :: "nat \<Rightarrow> char" where
  "digit_char d = char_of (48 + d)"

function str_nat :: "nat \<Rightarrow> string" where
  "str_nat n = (if n < 10 then [digit_char n] else str_nat (n div 10) @ [digit_char (n mod 10)])"
  by pat_completeness auto
termination
  by (relation "measure id") auto

section \<open>The worker thread\<close>

text \<open>
  What the program asks of the operating system is a parameter of the model:
  \<open>os.path.isdir\<close>, \<open>os.path.isfile\<close>, \<open>os.access(_, os.X_OK)\<close>, \<open>os.walk\<close>, and
  \<open>subprocess.run\<close> on an argument list, which raises (\<open>OSError\<close>) or gives a completed
  process. Of the completed process the worker reads \<open>returncode\<close> and
  \<open>stderr.decode("utf-8")\<close>; the field \<open>stderr\<close> below is the decoded text, \<open>None\<close>
  when the bytes do not decode (\<open>UnicodeDecodeError\<close>).
\<close>

record completed_process =
  returncode :: int
  stderr :: "string option"

record os =
  isdir :: "string \<Rightarrow> bool"
  isfile :: "string \<Rightarrow> bool"
  access_X_OK :: "string \<Rightarrow> bool"
  walk :: "string \<Rightarrow> (string \<times> string list \<times> string list) list"
  subprocess_run :: "string list \<Rightarrow> error + completed_process"

text \<open>
  A \<open>WorkerThread\<close> object: its name, its \<open>_failed\<close> attribute (\<open>None\<close> or a dict),
  its \<open>_dcraw_path\<close>, and whether \<open>start()\<close> has been called on the thread. The queue
  it shares with the coordinator is passed to \<open>run\<close>.
\<close>

record worker =
  name :: string
  failed :: "string dict option"
  dcraw_path :: string
  started :: bool

definition WorkerThread_init :: "os \<Rightarrow> string \<Rightarrow> string \<Rightarrow> error + worker" where
  "WorkerThread_init sys nm path =
     (if \<not> isfile sys path
        then Inl (AppError (''Executable '' @ CHR 0x27 # path @ CHR 0x27 # '' not found''))
      else if \<not> access_X_OK sys path
        then Inl (AppError (''File '' @ CHR 0x27 # path @ CHR 0x27 # '' ist not executable''))
      else Inr \<lparr>name = nm, failed = None, dcraw_path = path, started = False\<rparr>)"

text \<open>
  The methods of \<open>threading.Thread\<close> the coordinator calls. \<open>start()\<close> marks the thread
  started and lets \<open>run\<close> begin in it. \<open>join()\<close> raises \<open>RuntimeError\<close> on a thread that
  was never started; on a started thread it returns when the thread has ended.
\<close>

definition thread_start :: "worker \<Rightarrow> worker" where
  "thread_start t = t\<lparr>started := True\<rparr>"

definition join :: "worker \<Rightarrow> error option" where
  "join t = (if started t then None else Some RuntimeError)"

text \<open>\<open>t.failed.items()\<close>: the property gives \<open>_failed\<close>, and \<open>None\<close> has no \<open>items\<close>.\<close>

definition failed_items :: "worker \<Rightarrow> error + (string \<times> string) list" where
  "failed_items t = (case failed t of None \<Rightarrow> Inl AttributeError | Some d \<Rightarrow> Inr d)"

text \<open>
  \<open>_command\<close>. The test for a failure is made on the stripped text of the error stream
  as it is; the echoed path is removed afterwards, inside the failing branch:
  \<open>stderr[len(path) + 2:]\<close> drops the path and the two characters after it.
\<close>

definition is_failure :: "int \<Rightarrow> string \<Rightarrow> bool" where
  "is_failure rc text = (rc \<noteq> 0 \<or> text \<noteq> [])"

definition cleaned :: "string \<Rightarrow> string \<Rightarrow> string" where
  "cleaned path text = (if startswith text path then drop (length path + 2) text else text)"

definition command :: "os \<Rightarrow> worker \<Rightarrow> string \<Rightarrow> error + worker" where
  "command sys w path =
     (case subprocess_run sys [dcraw_path w, ''-Z'', ''-'', path] of
        Inl e \<Rightarrow> Inl e
      | Inr res \<Rightarrow>
          (case stderr res of
             None \<Rightarrow> Inl UnicodeDecodeError
           | Some raw \<Rightarrow>
               if is_failure (returncode res) (strip raw)
               then (case failed w of
                       None \<Rightarrow> Inl TypeError
                     | Some d \<Rightarrow> Inr (w\<lparr>failed := Some (dict_set path (cleaned path (strip raw)) d)\<rparr>))
               else Inr w))"

text \<open>
  \<open>run\<close>, with no other thread touching the queue: the thread ends when \<open>pop\<close> returns
  \<open>None\<close>, dies when \<open>_command\<close> raises, and otherwise stays in the wait of \<open>pop\<close>.
\<close>

datatype thread_end = Finished | Blocked | Died error

function run_loop :: "os \<Rightarrow> worker \<Rightarrow> string queue \<Rightarrow> thread_end \<times> worker \<times> string queue" where
  "run_loop sys w q =
     (case pop q of
        (Waits, q') \<Rightarrow> (Blocked, w, q')
      | (Returns None, q') \<Rightarrow> (Finished, w, q')
      | (Returns (Some path), q') \<Rightarrow>
          (case command sys w path of
             Inl e \<Rightarrow> (Died e, w, q')
           | Inr w' \<Rightarrow> run_loop sys w' q'))"
  by pat_completeness auto
termination
  by (relation "measure (\<lambda>(sys, w, q). length (q_data q))")
     (auto simp: pop_def split: list.splits if_splits)

definition run :: "os \<Rightarrow> worker \<Rightarrow> string queue \<Rightarrow> thread_end \<times> worker \<times> string queue" where
  "run sys w q = run_loop sys (w\<lparr>failed := Some []\<rparr>) q"

section \<open>The coordinator\<close>

text \<open>
  \<open>os.path.join\<close> and \<open>os.path.splitext\<close> on a POSIX system. \<open>rfind\<close> is the index
  of the last occurrence, \<open>-1\<close> when there is none. \<open>splitext\<close> cuts at the last dot
  when that dot comes after the last slash and some character between them is not a dot.
\<close>

definition endswith :: "string \<Rightarrow> string \<Rightarrow> bool" where
  "endswith s p = (length p \<le> length s \<and> drop (length s - length p) s = p)"

definition path_join :: "string \<Rightarrow> string \<Rightarrow> string" where
  "path_join a b =
     (if startswith b ''/'' then b
      else if a = [] \<or> endswith a ''/'' then a @ b
      else a @ ''/'' @ b)"

definition rfind :: "string \<Rightarrow> char \<Rightarrow> int" where
  "rfind s c =
     (if c \<in> set s then int (length s) - 1 - int (length (takeWhile (\<lambda>x. x \<noteq> c) (rev s)))
      else - 1)"

function not_only_dots :: "string \<Rightarrow> nat \<Rightarrow> nat \<Rightarrow> bool" where
  "not_only_dots p filenameIndex dotIndex =
     (if filenameIndex < dotIndex
      then (if take 1 (drop filenameIndex p) \<noteq> ''.'' then True
            else not_only_dots p (filenameIndex + 1) dotIndex)
      else False)"
  by pat_completeness auto
termination
  by (relation "measure (\<lambda>(p, i, d). d - i)") auto

definition splitext :: "string \<Rightarrow> string \<times> string" where
  "splitext p =
     (let sepIndex = rfind p (CHR ''/''); dotIndex = rfind p (CHR ''.'')
      in if dotIndex > sepIndex \<and> not_only_dots p (nat (sepIndex + 1)) (nat dotIndex)
         then (take (nat dotIndex) p, drop (nat dotIndex) p)
         else (p, []))"

text \<open>The parsed command line, and the two attributes \<open>RawCheck.__init__\<close> sets.\<close>

record args =
  dir :: string
  debug :: bool
  workers :: int
  show_extensions :: bool
  dcraw_binary :: string

definition raw_ext :: "string list" where
  "raw_ext = [''crw'', ''cr2'', ''cr3'', ''rw2'', ''dng'', ''raf'']"

definition default_dcraw_path :: string where
  "default_dcraw_path = ''/usr/bin/dcraw_emu''"

text \<open>
  The local variables of \<open>__call__\<close> that carry its results, with the list of worker
  threads started so far and the strings handed to \<open>print\<close>. The queue of this record
  carries the coordinator's own calls on it; what the workers pop meanwhile is not part
  of \<open>__call__\<close>. Parsing the command line and setting up the logger come before the
  \<open>try\<close> statement and are not modelled.
\<close>

record frame =
  v_result :: bool
  v_extensions :: "nat dict"
  v_queue :: "string queue"
  v_failed :: "string dict"
  threads :: "worker list"
  out :: "string list"

text \<open>
  Two things reach \<open>__call__\<close> from outside and are parameters of the model. One is
  the interrupt: \<open>InTraversal k\<close> raises \<open>KeyboardInterrupt\<close> in the scanning loop once
  \<open>k\<close> files have been handled, \<open>InJoin k\<close> raises it in the joining loop once \<open>k\<close>
  threads have been joined and merged. The other is the list \<open>joined\<close>: the threads that
  \<open>threading.enumerate()\<close> yields apart from the main thread, each as it is when its
  \<open>join()\<close> has returned or raised. The loop calls \<open>t.join()\<close> and then reads
  \<open>t.failed.items()\<close>; a thread that never ends would keep the coordinator inside
  \<open>join()\<close>, which this list cannot show.
\<close>

datatype interrupt = NoInterrupt | InTraversal nat | InJoin nat

type_synonym step_result = "frame \<times> error option"

definition then_do :: "step_result \<Rightarrow> (frame \<Rightarrow> step_result) \<Rightarrow> step_result" where
  "then_do r f = (case r of (s, None) \<Rightarrow> f s | (s, Some e) \<Rightarrow> (s, Some e))"

definition check_dir :: "os \<Rightarrow> args \<Rightarrow> frame \<Rightarrow> step_result" where
  "check_dir sys a s =
     (if \<not> isdir sys (dir a)
      then (s, Some (AppError (''Specified path '' @ CHR 0x27 # dir a @ CHR 0x27 #
                                '' does not exist or is not a directory'')))
      else (s, None))"

fun start_workers :: "os \<Rightarrow> string \<Rightarrow> nat list \<Rightarrow> frame \<Rightarrow> step_result" where
  "start_workers sys path [] s = (s, None)"
| "start_workers sys path (i # rest) s =
     (case WorkerThread_init sys (''Thread-'' @ str_nat (i + 1)) path of
        Inl e \<Rightarrow> (s, Some e)
      | Inr worker \<Rightarrow>
          start_workers sys path rest (s\<lparr>threads := threads s @ [thread_start worker]\<rparr>))"

text \<open>The worker that the \<open>i\<close>-th round of the starting loop constructs.\<close>

definition new_worker :: "string \<Rightarrow> nat \<Rightarrow> worker" where
  "new_worker p i =
     \<lparr>name = ''Thread-'' @ str_nat (i + 1), failed = None, dcraw_path = p, started = False\<rparr>"

text \<open>The count a table holds for an extension, 0 for an extension it does not hold.\<close>

definition count_of :: "nat dict \<Rightarrow> string \<Rightarrow> nat" where
  "count_of d e = (case dict_get d e of None \<Rightarrow> 0 | Some n \<Rightarrow> n)"

definition dict_incr :: "string \<Rightarrow> nat dict \<Rightarrow> nat dict" where
  "dict_incr ext d =
     (case dict_get d ext of None \<Rightarrow> dict_set ext 1 d | Some n \<Rightarrow> dict_set ext (n + 1) d)"

definition file_ext :: "string \<Rightarrow> string" where
  "file_ext f = lower (drop 1 (snd (splitext f)))"

definition scan_file :: "string \<times> string \<Rightarrow> frame \<Rightarrow> frame" where
  "scan_file bf s =
     (let path = path_join (fst bf) (snd bf);
          ext = file_ext (snd bf);
          s' = s\<lparr>v_extensions := dict_incr ext (v_extensions s)\<rparr>
      in if ext \<in> set raw_ext then s'\<lparr>v_queue := push path (v_queue s')\<rparr> else s')"

definition walk_files :: "os \<Rightarrow> string \<Rightarrow> (string \<times> string) list" where
  "walk_files sys d = concat (map (\<lambda>(base, dirs, files). map (\<lambda>f. (base, f)) files) (walk sys d))"

definition scan :: "interrupt \<Rightarrow> (string \<times> string) list \<Rightarrow> frame \<Rightarrow> step_result" where
  "scan intr files s =
     (case intr of
        InTraversal k \<Rightarrow>
          if k < length files then (fold scan_file (take k files) s, Some KeyboardInterrupt)
          else (fold scan_file files s, None)
      | _ \<Rightarrow> (fold scan_file files s, None))"

definition merge_items :: "string dict \<Rightarrow> string dict \<Rightarrow> string dict" where
  "merge_items d acc = fold (\<lambda>(p, e) m. dict_set p e m) d acc"

fun join_all :: "worker list \<Rightarrow> frame \<Rightarrow> step_result" where
  "join_all [] s = (s, None)"
| "join_all (t # ts) s =
     (case join t of
        Some e \<Rightarrow> (s, Some e)
      | None \<Rightarrow>
          (case failed_items t of
             Inl e \<Rightarrow> (s, Some e)
           | Inr d \<Rightarrow> join_all ts (s\<lparr>v_failed := merge_items d (v_failed s)\<rparr>)))"

definition join_threads :: "interrupt \<Rightarrow> worker list \<Rightarrow> frame \<Rightarrow> step_result" where
  "join_threads intr joined s =
     (case intr of
        InJoin k \<Rightarrow>
          if k < length joined
          then then_do (join_all (take k joined) s) (\<lambda>s'. (s', Some KeyboardInterrupt))
          else join_all joined s
      | _ \<Rightarrow> join_all joined s)"

definition print_extensions :: "nat dict \<Rightarrow> string list" where
  "print_extensions d =
     concat (map (\<lambda>(ext, count). [''File Extensions:'', ''  '' @ ext @ '': '' @ str_nat count, '''']) d)"

definition print_failed :: "string dict \<Rightarrow> string list" where
  "print_failed d = [''Failed:''] @ map (\<lambda>(path, reason). ''  '' @ path @ '': '' @ reason) d @ ['''']"

definition report :: "args \<Rightarrow> frame \<Rightarrow> step_result" where
  "report a s =
     (let s' = (if show_extensions a then s\<lparr>out := out s @ print_extensions (v_extensions s)\<rparr> else s)
      in if length (v_failed s') > 0
         then (s'\<lparr>out := out s' @ print_failed (v_failed s')\<rparr>, None)
         else (s'\<lparr>v_result := True\<rparr>, None))"

text \<open>The body of the \<open>try\<close> statement, and the two handlers.\<close>

definition try_body :: "os \<Rightarrow> interrupt \<Rightarrow> worker list \<Rightarrow> args \<Rightarrow> frame \<Rightarrow> step_result" where
  "try_body sys intr joined a s =
     then_do (then_do (then_do (then_do (then_do
       (check_dir sys a s)
       (start_workers sys (dcraw_binary a) [0 ..< nat (workers a)]))
       (scan intr (walk_files sys (dir a))))
       (\<lambda>s. (s\<lparr>v_queue := completed (v_queue s), v_failed := []\<rparr>, None)))
       (join_threads intr joined))
       (report a)"

definition except_KeyboardInterrupt :: "frame \<Rightarrow> frame" where
  "except_KeyboardInterrupt s = s\<lparr>v_queue := completed (clear (v_queue s))\<rparr>"

definition except_AppError :: "string \<Rightarrow> frame \<Rightarrow> frame" where
  "except_AppError e s = s\<lparr>out := out s @ [''Error: '' @ e @ [CHR 0x0A]]\<rparr>"

text \<open>
  \<open>__call__\<close>. The function assigns its local \<open>result\<close> and ends without a
  \<open>return\<close> statement, so whenever it returns it returns \<open>None\<close>; an exception that
  neither handler catches leaves the function (\<open>Inl\<close>).
\<close>

definition frame_init :: frame where
  "frame_init = \<lparr>v_result = False, v_extensions = [], v_queue = Queue_init, v_failed = [],
                 threads = [], out = []\<rparr>"

definition call :: "os \<Rightarrow> interrupt \<Rightarrow> worker list \<Rightarrow> args \<Rightarrow> (error + pyval) \<times> frame" where
  "call sys intr joined a =
     (case try_body sys intr joined a frame_init of
        (s, None) \<Rightarrow> (Inr PyNone, s)
      | (s, Some KeyboardInterrupt) \<Rightarrow> (Inr PyNone, except_KeyboardInterrupt s)
      | (s, Some (AppError e)) \<Rightarrow> (Inr PyNone, except_AppError e s)
      | (s, Some e) \<Rightarrow> (Inl e, s))"

text \<open>
  The script: \<open>sys.exit(0)\<close> when the call returns a true value, \<open>sys.exit(1)\<close>
  otherwise; an exception that leaves \<open>__call__\<close> ends the process with status 1.
\<close>

definition main :: "os \<Rightarrow> interrupt \<Rightarrow> worker list \<Rightarrow> args \<Rightarrow> int" where
  "main sys intr joined a =
     (case fst (call sys intr joined a) of
        Inr v \<Rightarrow> if truthy v then 0 else 1
      | Inl e \<Rightarrow> 1)"

section \<open>Example inputs\<close>

text \<open>
  An operating system on which every path is a directory, a file and executable,
  \<open>os.walk\<close> yields the given listing, and every run of the decoder ends as the given
  completed process; a command line with the defaults of the parser; and a started
  worker whose \<open>run\<close> has begun.
\<close>

definition example_os :: "(string \<times> string list \<times> string list) list \<Rightarrow> completed_process \<Rightarrow> os" where
  "example_os listing res =
     \<lparr>isdir = (\<lambda>p. True), isfile = (\<lambda>p. True), access_X_OK = (\<lambda>p. True),
      walk = (\<lambda>d. listing), subprocess_run = (\<lambda>a. Inr res)\<rparr>"

definition example_args :: args where
  "example_args = \<lparr>dir = ''/photos'', debug = False, workers = 1, show_extensions = False,
                   dcraw_binary = default_dcraw_path\<rparr>"

definition example_worker :: worker where
  "example_worker =
     \<lparr>name = ''Thread-1'', failed = Some [], dcraw_path = default_dcraw_path, started = True\<rparr>"


section \<open>The queue under interleaving\<close>

text \<open>
  The threads of the program run against each other, and a thread can be suspended
  between any two of its statements. The methods of \<open>Queue\<close> are cut here into the
  steps that the semaphore, the lock of the condition variable and the interpreter make
  atomic:
  \<^item> \<open>push\<close> is \<open>Append\<close> (the block under \<open>self._sem\<close>), then \<open>Notify\<close> (the block
    under \<open>self._cond\<close>);
  \<^item> \<open>completed\<close> is \<open>SetCompleted\<close> (the assignment, under no lock), then \<open>Notify\<close>;
  \<^item> a thread in \<open>pop\<close> is at \<open>AtSem\<close>, about to enter the block under \<open>self._sem\<close>
    that tests the length and takes the head; at \<open>AtFlag\<close>, having found the list
    empty and about to read \<open>self._completed\<close>; at \<open>AtWait\<close>, having read the flag as
    not set and about to enter \<open>with self._cond: self._cond.wait()\<close>; or \<open>Waiting\<close>
    inside \<open>wait\<close>, from which only a \<open>notify_all\<close> brings it back to the head of the loop.
  A worker thread calls \<open>pop\<close> again after each entry it got (\<open>_command\<close> does not touch
  the queue) and is \<open>Done\<close> when \<open>pop\<close> has returned \<open>None\<close>. The main thread works
  through a list of calls on the queue. A schedule names the thread that makes the next
  step. Every run of the model is a run of the program. \<open>clear\<close> is not among the
  calls of this list: it takes no lock, so it can fall inside the block under
  \<open>self._sem\<close>, which is one step here.
\<close>

datatype 'a op = Push 'a | Completed

datatype 'a instr = Append 'a | Notify | SetCompleted

fun steps_of :: "'a op \<Rightarrow> 'a instr list" where
  "steps_of (Push x) = [Append x, Notify]"
| "steps_of Completed = [SetCompleted, Notify]"

datatype pc = AtSem | AtFlag | AtWait | Waiting | Done

record 'a popper =
  pc :: pc
  got :: "'a list"

record 'a system =
  sq :: "'a queue"
  todo :: "'a instr list"
  poppers :: "'a popper list"

datatype tid = Main | Worker nat

definition start :: "'a op list \<Rightarrow> nat \<Rightarrow> 'a system" where
  "start ops n =
     \<lparr>sq = Queue_init, todo = concat (map steps_of ops),
      poppers = replicate n \<lparr>pc = AtSem, got = []\<rparr>\<rparr>"

definition wake :: "'a popper \<Rightarrow> 'a popper" where
  "wake p = (if pc p = Waiting then p\<lparr>pc := AtSem\<rparr> else p)"

definition step_main :: "'a system \<Rightarrow> 'a system option" where
  "step_main s =
     (case todo s of
        [] \<Rightarrow> None
      | Append x # rest \<Rightarrow> Some (s\<lparr>sq := push x (sq s), todo := rest\<rparr>)
      | Notify # rest \<Rightarrow> Some (s\<lparr>poppers := map wake (poppers s), todo := rest\<rparr>)
      | SetCompleted # rest \<Rightarrow> Some (s\<lparr>sq := completed (sq s), todo := rest\<rparr>))"

definition step_worker :: "nat \<Rightarrow> 'a system \<Rightarrow> 'a system option" where
  "step_worker i s =
     (if i < length (poppers s)
      then (let p = poppers s ! i
            in case pc p of
                 AtSem \<Rightarrow>
                   (case q_data (sq s) of
                      x # rest \<Rightarrow>
                        Some (s\<lparr>sq := (sq s)\<lparr>q_data := rest\<rparr>,
                                poppers := (poppers s)[i := p\<lparr>got := got p @ [x]\<rparr>]\<rparr>)
                    | [] \<Rightarrow> Some (s\<lparr>poppers := (poppers s)[i := p\<lparr>pc := AtFlag\<rparr>]\<rparr>))
               | AtFlag \<Rightarrow>
                   Some (s\<lparr>poppers :=
                            (poppers s)[i := p\<lparr>pc := (if \<not> q_completed (sq s) then AtWait else Done)\<rparr>]\<rparr>)
               | AtWait \<Rightarrow> Some (s\<lparr>poppers := (poppers s)[i := p\<lparr>pc := Waiting\<rparr>]\<rparr>)
               | Waiting \<Rightarrow> None
               | Done \<Rightarrow> None)
      else None)"

fun step :: "tid \<Rightarrow> 'a system \<Rightarrow> 'a system option" where
  "step Main s = step_main s"
| "step (Worker i) s = step_worker i s"

text \<open>
  \<open>exec\<close> runs a schedule; it is \<open>None\<close> when the schedule names a thread that has no
  step to make. In a \<open>stuck\<close> state the main thread has made all its calls and every
  worker is inside \<open>wait\<close> or has ended.
\<close>

fun exec :: "tid list \<Rightarrow> 'a system \<Rightarrow> 'a system option" where
  "exec [] s = Some s"
| "exec (t # ts) s = (case step t s of None \<Rightarrow> None | Some s' \<Rightarrow> exec ts s')"

definition stuck :: "'a system \<Rightarrow> bool" where
  "stuck s = (todo s = [] \<and> list_all (\<lambda>p. pc p = Waiting \<or> pc p = Done) (poppers s))"

text \<open>
  \<open>KeyboardInterrupt\<close> reaches the main thread: the calls it had still to make are
  abandoned and the handler runs \<open>queue.clear()\<close> and \<open>queue.completed()\<close>. The one
  assignment of \<open>clear\<close> is taken here at once, with no step of another thread between
  the interrupt and it; the steps of \<open>completed\<close> are left to the schedule.
\<close>

definition keyboard_interrupt :: "'a system \<Rightarrow> 'a system" where
  "keyboard_interrupt s = s\<lparr>sq := clear (sq s), todo := steps_of Completed\<rparr>"

text \<open>The entries the main thread has still to append.\<close>

fun pending :: "'a instr list \<Rightarrow> 'a list" where
  "pending [] = []"
| "pending (Append x # rest) = x # pending rest"
| "pending (i # rest) = pending rest"

text \<open>
  All entries the workers have got so far; and the states in which the main thread has
  made all its calls, the flag is set, and either the list is empty or no worker has yet
  seen it empty.
\<close>

definition delivered :: "'a system \<Rightarrow> 'a list" where
  "delivered s = concat (map got (poppers s))"

definition settled :: "'a system \<Rightarrow> bool" where
  "settled s = (todo s = [] \<and> q_completed (sq s)
                \<and> (q_data (sq s) = [] \<or> list_all (\<lambda>p. pc p = AtSem) (poppers s)))"

section \<open>Properties of the queue, one thread at a time\<close>

lemma pop_empty_completed:
  "q_data q = [] \<Longrightarrow> q_completed q \<Longrightarrow> pop q = (Returns None, q)"
  by (simp add: pop_def)

lemma pops_drain:
  "q_data q = xs @ rest \<Longrightarrow>
   pops (length xs) q = (map (\<lambda>x. Returns (Some x)) xs, q\<lparr>q_data := rest\<rparr>)"
proof (induction xs arbitrary: q)
  case Nil
  then show ?case by simp
next
  case (Cons x xs)
  have "pop q = (Returns (Some x), q\<lparr>q_data := xs @ rest\<rparr>)"
    using Cons.prems by (simp add: pop_def)
  moreover have "pops (length xs) (q\<lparr>q_data := xs @ rest\<rparr>) =
      (map (\<lambda>x. Returns (Some x)) xs, q\<lparr>q_data := rest\<rparr>)"
    using Cons.IH [of "q\<lparr>q_data := xs @ rest\<rparr>"] by simp
  ultimately show ?case by simp
qed

text \<open>
  Claim C5. On a queue whose list is empty and whose flag is set, \<open>pop\<close> returns
  \<open>None\<close> without reaching the wait and leaves the queue as it was, so any number of
  calls in a row all return \<open>None\<close>.
\<close>

theorem pop_completed_sentinel:
  assumes "q_data q = []" and "q_completed q"
  shows "pop q = (Returns None, q) \<and> pops n q = (replicate n (Returns None), q)"
proof
  show p: "pop q = (Returns None, q)"
    using assms by (rule pop_empty_completed)
  show "pops n q = (replicate n (Returns None), q)"
    by (induction n) (simp_all add: p)
qed

theorem pop_completed_sentinel_witness:
  "q_data (completed (Queue_init :: nat queue)) = [] \<and> q_completed (completed (Queue_init :: nat queue))
   \<and> pop (completed (Queue_init :: nat queue)) = (Returns None, completed Queue_init)
   \<and> pops 3 (completed (Queue_init :: nat queue))
       = ([Returns None, Returns None, Returns None], completed Queue_init)"
  using pop_completed_sentinel [of "completed (Queue_init :: nat queue)" 3]
  by (simp add: completed_def Queue_init_def numeral_3_eq_3)

text \<open>
  Claim C9. \<open>push\<close> never looks at the flag: on a queue already marked complete it
  appends the entry all the same and leaves the flag set. \<open>pop\<close> looks at the flag only
  when the list is empty: popping the new queue once for each entry returns the older
  entries and then the new one, and if the list was empty the next \<open>pop\<close> returns the new
  entry at once.
\<close>

theorem push_after_completed:
  assumes "q_completed q"
  shows "q_data (push x q) = q_data q @ [x]
       \<and> q_completed (push x q)
       \<and> pops (length (q_data q) + 1) (push x q)
           = (map (\<lambda>y. Returns (Some y)) (q_data q @ [x]), q\<lparr>q_data := []\<rparr>)
       \<and> (q_data q = [] \<longrightarrow> pop (push x q) = (Returns (Some x), q))"
proof -
  have d: "q_data (push x q) = (q_data q @ [x]) @ []"
    by (simp add: push_def)
  have "pops (length (q_data q @ [x])) (push x q)
      = (map (\<lambda>y. Returns (Some y)) (q_data q @ [x]), (push x q)\<lparr>q_data := []\<rparr>)"
    using d by (rule pops_drain)
  then have "pops (length (q_data q) + 1) (push x q)
      = (map (\<lambda>y. Returns (Some y)) (q_data q @ [x]), q\<lparr>q_data := []\<rparr>)"
    by (simp add: push_def)
  moreover have "q_data q = [] \<Longrightarrow> pop (push x q) = (Returns (Some x), q)"
    by (simp add: pop_def push_def)
  ultimately show ?thesis
    using assms by (simp add: push_def)
qed

theorem push_after_completed_witness:
  "q_completed (completed (Queue_init :: nat queue))
   \<and> q_data (push 7 (completed Queue_init)) = [7::nat]
   \<and> q_completed (push (7::nat) (completed Queue_init))
   \<and> pop (push (7::nat) (completed Queue_init)) = (Returns (Some 7), completed Queue_init)"
  using push_after_completed [of "completed (Queue_init :: nat queue)" 7]
  by (simp add: completed_def Queue_init_def)

section \<open>Properties of the worker\<close>

lemma dict_get_set: "dict_get (dict_set k v d) k = Some v"
  by (induction d) (auto simp: dict_get_def)

lemma dict_get_set_other: "k' \<noteq> k \<Longrightarrow> dict_get (dict_set k v d) k' = dict_get d k'"
  by (induction d) (auto simp: dict_get_def)










section \<open>Properties of the coordinator\<close>

lemma start_workers_ok:
  "isfile sys p \<Longrightarrow> access_X_OK sys p \<Longrightarrow>
   start_workers sys p is s
     = (s\<lparr>threads := threads s @ map (\<lambda>i. thread_start (new_worker p i)) is\<rparr>, None)"
  by (induction "is" arbitrary: s) (simp_all add: WorkerThread_init_def new_worker_def)

lemma start_workers_fail:
  "\<not> isfile sys p \<or> \<not> access_X_OK sys p \<Longrightarrow> is \<noteq> [] \<Longrightarrow>
   \<exists>m. start_workers sys p is s = (s, Some (AppError m))"
  by (cases "is") (auto simp: WorkerThread_init_def)

lemma scan_file_fields:
  "v_result (scan_file bf s) = v_result s"
  "v_failed (scan_file bf s) = v_failed s"
  "threads (scan_file bf s) = threads s"
  "out (scan_file bf s) = out s"
  "q_completed (v_queue (scan_file bf s)) = q_completed (v_queue s)"
  by (simp_all add: scan_file_def Let_def push_def)

lemma fold_scan_fields:
  "v_result (fold scan_file fs s) = v_result s"
  "v_failed (fold scan_file fs s) = v_failed s"
  "threads (fold scan_file fs s) = threads s"
  "out (fold scan_file fs s) = out s"
  "q_completed (v_queue (fold scan_file fs s)) = q_completed (v_queue s)"
  by (induction fs arbitrary: s) (simp_all add: scan_file_fields)

lemma fold_scan_queue:
  "q_data (v_queue (fold scan_file fs s)) =
     q_data (v_queue s) @ map (\<lambda>bf. path_join (fst bf) (snd bf))
                              (filter (\<lambda>bf. file_ext (snd bf) \<in> set raw_ext) fs)"
  by (induction fs arbitrary: s) (simp_all add: scan_file_def Let_def push_def)

lemma dict_incr_get:
  "dict_get (dict_incr e d) e' = (if e' = e then Some (count_of d e + 1) else dict_get d e')"
  by (auto simp: dict_incr_def count_of_def dict_get_set dict_get_set_other split: option.splits)

lemma fold_scan_ext:
  "dict_get (v_extensions (fold scan_file fs s)) e =
     (if filter (\<lambda>bf. file_ext (snd bf) = e) fs = [] then dict_get (v_extensions s) e
      else Some (count_of (v_extensions s) e + length (filter (\<lambda>bf. file_ext (snd bf) = e) fs)))"
proof (induction fs arbitrary: s)
  case Nil
  show ?case by simp
next
  case (Cons bf fs)
  have x: "v_extensions (scan_file bf s) = dict_incr (file_ext (snd bf)) (v_extensions s)"
    by (simp add: scan_file_def Let_def)
  show ?case
    by (simp add: Cons.IH x dict_incr_get count_of_def)
qed

lemma join_all_fields:
  "v_result (fst (join_all ts s)) = v_result s"
  "v_extensions (fst (join_all ts s)) = v_extensions s"
  "v_queue (fst (join_all ts s)) = v_queue s"
  "threads (fst (join_all ts s)) = threads s"
  "out (fst (join_all ts s)) = out s"
  by (induction ts arbitrary: s; simp split: option.splits sum.splits)+

lemma join_all_error:
  "snd (join_all ts s) = None \<or> snd (join_all ts s) = Some RuntimeError
     \<or> snd (join_all ts s) = Some AttributeError"
  by (induction ts arbitrary: s)
     (auto simp: join_def failed_items_def split: option.splits sum.splits if_splits)

lemma join_all_ok:
  "list_all (\<lambda>t. started t \<and> failed t \<noteq> None) ts \<Longrightarrow> snd (join_all ts s) = None"
  by (induction ts arbitrary: s) (auto simp: join_def failed_items_def split: option.splits)

lemma queue_cleared_completed:
  "completed (clear (q :: 'a queue)) = \<lparr>q_data = [], q_completed = True\<rparr>"
  by (simp add: completed_def clear_def)

lemma try_body_started:
  assumes "isdir sys (dir a)"
    and "workers a \<le> 0 \<or> (isfile sys (dcraw_binary a) \<and> access_X_OK sys (dcraw_binary a))"
  shows "try_body sys intr joined a s =
     then_do (then_do (then_do
       (scan intr (walk_files sys (dir a))
          (s\<lparr>threads := threads s @ map (\<lambda>i. thread_start (new_worker (dcraw_binary a) i)) [0 ..< nat (workers a)]\<rparr>))
       (\<lambda>s. (s\<lparr>v_queue := completed (v_queue s), v_failed := []\<rparr>, None)))
       (join_threads intr joined))
       (report a)"
proof -
  have "start_workers sys (dcraw_binary a) [0 ..< nat (workers a)] s =
      (s\<lparr>threads := threads s @ map (\<lambda>i. thread_start (new_worker (dcraw_binary a) i)) [0 ..< nat (workers a)]\<rparr>, None)"
  proof (cases "workers a \<le> 0")
    case True
    then show ?thesis by simp
  next
    case False
    with assms(2) show ?thesis by (simp add: start_workers_ok)
  qed
  then show ?thesis
    using assms(1) by (simp add: try_body_def check_dir_def then_do_def)
qed

lemma call_interrupted:
  assumes "try_body sys intr joined a frame_init = (s, Some KeyboardInterrupt)"
  shows "call sys intr joined a = (Inr PyNone, s\<lparr>v_queue := \<lparr>q_data = [], q_completed = True\<rparr>\<rparr>)"
  using assms by (simp add: call_def except_KeyboardInterrupt_def queue_cleared_completed)

lemma try_body_interrupted:
  assumes "isdir sys (dir a)"
    and "workers a \<le> 0 \<or> (isfile sys (dcraw_binary a) \<and> access_X_OK sys (dcraw_binary a))"
    and "(\<exists>k. intr = InTraversal k \<and> k < length (walk_files sys (dir a)))
       \<or> (\<exists>k. intr = InJoin k \<and> k < length joined \<and> list_all (\<lambda>t. started t \<and> failed t \<noteq> None) (take k joined))"
  shows "\<exists>s. try_body sys intr joined a frame_init = (s, Some KeyboardInterrupt)
           \<and> \<not> v_result s \<and> out s = []"
proof -
  let ?s1 = "frame_init\<lparr>threads := threads frame_init @ map (\<lambda>i. thread_start (new_worker (dcraw_binary a) i)) [0 ..< nat (workers a)]\<rparr>"
  let ?fs = "walk_files sys (dir a)"
  note tb = try_body_started [OF assms(1,2)]
  from assms(3) show ?thesis
  proof
    assume "\<exists>k. intr = InTraversal k \<and> k < length ?fs"
    then obtain k where k: "intr = InTraversal k" "k < length ?fs" by blast
    have "try_body sys intr joined a frame_init = (fold scan_file (take k ?fs) ?s1, Some KeyboardInterrupt)"
      using k by (simp add: tb scan_def then_do_def)
    moreover have "\<not> v_result (fold scan_file (take k ?fs) ?s1)" "out (fold scan_file (take k ?fs) ?s1) = []"
      by (simp_all add: fold_scan_fields frame_init_def)
    ultimately show ?thesis by blast
  next
    assume "\<exists>k. intr = InJoin k \<and> k < length joined \<and> list_all (\<lambda>t. started t \<and> failed t \<noteq> None) (take k joined)"
    then obtain k where k: "intr = InJoin k" "k < length joined"
        "list_all (\<lambda>t. started t \<and> failed t \<noteq> None) (take k joined)" by blast
    let ?s2 = "(fold scan_file ?fs ?s1)\<lparr>v_queue := completed (v_queue (fold scan_file ?fs ?s1)), v_failed := []\<rparr>"
    obtain s3 e where j: "join_all (take k joined) ?s2 = (s3, e)" by (cases "join_all (take k joined) ?s2")
    have e: "e = None"
      using join_all_ok [OF k(3), of ?s2] j by simp
    have f: "v_result s3 = v_result ?s2" "out s3 = out ?s2"
      using join_all_fields(1,5) [of "take k joined" ?s2] j by simp_all
    have "try_body sys intr joined a frame_init = (s3, Some KeyboardInterrupt)"
      using k(1,2) j e by (simp add: tb scan_def then_do_def join_threads_def)
    moreover have "\<not> v_result s3" "out s3 = []"
      using f by (simp_all add: fold_scan_fields frame_init_def)
    ultimately show ?thesis by blast
  qed
qed

text \<open>
  What the handler of \<open>KeyboardInterrupt\<close> does on the side of the coordinator. Let the
  directory and the decoder pass their checks (or no worker be asked for), and let the
  interrupt arrive in the scanning loop, or in the joining loop after threads that could
  be joined and merged. Then the handler leaves the queue empty and marked complete;
  \<open>__call__\<close> returns normally, with \<open>None\<close>; its \<open>result\<close> is false; and nothing
  has been printed, no list of failures either. What a worker inside \<open>pop\<close> sees of
  this is a matter of the schedule, taken up with the queue under interleaving.
\<close>

lemma interrupt_clears_and_completes:
  assumes "isdir sys (dir a)"
    and "workers a \<le> 0 \<or> (isfile sys (dcraw_binary a) \<and> access_X_OK sys (dcraw_binary a))"
    and "(\<exists>k. intr = InTraversal k \<and> k < length (walk_files sys (dir a)))
       \<or> (\<exists>k. intr = InJoin k \<and> k < length joined \<and> list_all (\<lambda>t. started t \<and> failed t \<noteq> None) (take k joined))"
  shows "fst (call sys intr joined a) = Inr PyNone
       \<and> v_queue (snd (call sys intr joined a)) = \<lparr>q_data = [], q_completed = True\<rparr>
       \<and> pop (v_queue (snd (call sys intr joined a)))
           = (Returns None, v_queue (snd (call sys intr joined a)))
       \<and> \<not> v_result (snd (call sys intr joined a))
       \<and> out (snd (call sys intr joined a)) = []
       \<and> main sys intr joined a = 1"
proof -
  obtain s where s: "try_body sys intr joined a frame_init = (s, Some KeyboardInterrupt)"
      "\<not> v_result s" "out s = []"
    using try_body_interrupted [OF assms] by blast
  have c: "call sys intr joined a = (Inr PyNone, s\<lparr>v_queue := \<lparr>q_data = [], q_completed = True\<rparr>\<rparr>)"
    using s(1) by (rule call_interrupted)
  show ?thesis
    using s(2,3) by (simp add: c main_def pop_def)
qed

lemma interrupt_clears_and_completes_example:
  "call (example_os [(''/photos'', [], [''a.jpg'', ''b.cr3''])] \<lparr>returncode = 0, stderr = Some []\<rparr>)
        (InTraversal 1) [] example_args
     = (Inr PyNone,
        \<lparr>v_result = False, v_extensions = [(''jpg'', 1)],
         v_queue = \<lparr>q_data = [], q_completed = True\<rparr>, v_failed = [],
         threads = [thread_start (new_worker default_dcraw_path 0)], out = []\<rparr>)
   \<and> main (example_os [(''/photos'', [], [''a.jpg'', ''b.cr3''])] \<lparr>returncode = 0, stderr = Some []\<rparr>)
        (InTraversal 1) [] example_args = 1
   \<and> call (example_os [(''/photos'', [], [''a.jpg'', ''b.cr3''])] \<lparr>returncode = 0, stderr = Some []\<rparr>)
        (InJoin 1) [example_worker\<lparr>failed := Some [(''/photos/b.cr3'', ''x'')]\<rparr>, example_worker]
        example_args
     = (Inr PyNone,
        \<lparr>v_result = False, v_extensions = [(''jpg'', 1), (''cr3'', 1)],
         v_queue = \<lparr>q_data = [], q_completed = True\<rparr>, v_failed = [(''/photos/b.cr3'', ''x'')],
         threads = [thread_start (new_worker default_dcraw_path 0)], out = []\<rparr>)"
proof -
  let ?sys = "example_os [(''/photos'', [], [''a.jpg'', ''b.cr3''])] \<lparr>returncode = 0, stderr = Some []\<rparr>"
  let ?joined = "[example_worker\<lparr>failed := Some [(''/photos/b.cr3'', ''x'')]\<rparr>, example_worker]"
  have 1: "isdir ?sys (dir example_args)"
    by (simp add: example_os_def)
  have 2: "workers example_args \<le> 0
      \<or> (isfile ?sys (dcraw_binary example_args) \<and> access_X_OK ?sys (dcraw_binary example_args))"
    by (simp add: example_os_def)
  have 3: "(\<exists>k. InTraversal 1 = InTraversal k \<and> k < length (walk_files ?sys (dir example_args)))
       \<or> (\<exists>k. InTraversal 1 = InJoin k \<and> k < length ([] :: worker list)
              \<and> list_all (\<lambda>t. started t \<and> failed t \<noteq> None) (take k []))"
    by (simp add: example_os_def walk_files_def)
  have 4: "(\<exists>k. InJoin 1 = InTraversal k \<and> k < length (walk_files ?sys (dir example_args)))
       \<or> (\<exists>k. InJoin 1 = InJoin k \<and> k < length ?joined
              \<and> list_all (\<lambda>t. started t \<and> failed t \<noteq> None) (take k ?joined))"
    by (simp add: example_worker_def)
  have c: "call ?sys (InTraversal 1) [] example_args
     = (Inr PyNone,
        \<lparr>v_result = False, v_extensions = [(''jpg'', 1)],
         v_queue = \<lparr>q_data = [], q_completed = True\<rparr>, v_failed = [],
         threads = [thread_start (new_worker default_dcraw_path 0)], out = []\<rparr>)"
    by code_simp
  have d: "call ?sys (InJoin 1) ?joined example_args
     = (Inr PyNone,
        \<lparr>v_result = False, v_extensions = [(''jpg'', 1), (''cr3'', 1)],
         v_queue = \<lparr>q_data = [], q_completed = True\<rparr>, v_failed = [(''/photos/b.cr3'', ''x'')],
         threads = [thread_start (new_worker default_dcraw_path 0)], out = []\<rparr>)"
    by code_simp
  show ?thesis
    using interrupt_clears_and_completes [OF 1 2 3] interrupt_clears_and_completes [OF 1 2 4] c d
    by simp
qed

lemma call_returns_None: "fst (call sys intr joined a) = Inr v \<Longrightarrow> v = PyNone"
  by (auto simp: call_def split: prod.splits option.splits error.splits)

lemma main_exit_status: "main sys intr joined a = 1"
proof (cases "fst (call sys intr joined a)")
  case (Inl e)
  then show ?thesis by (simp add: main_def)
next
  case (Inr v)
  then have "v = PyNone" by (rule call_returns_None)
  with Inr show ?thesis by (simp add: main_def)
qed

lemma report_result: "\<not> v_result s \<Longrightarrow> v_result (fst (report a s)) = (v_failed (fst (report a s)) = [])"
  by (simp add: report_def Let_def)

text \<open>
  Claim C1, on the code. A directory holds the one file \<open>photo.CR2\<close>, the decoder
  exits with status 0 and writes nothing, one worker is asked for; the worker, run over
  the queue the coordinator filled, ends with an empty \<open>failed\<close>. The merged record is
  empty and the local \<open>result\<close> is true, yet \<open>__call__\<close> returns \<open>None\<close> and the exit
  status is 1, where the claim has \<open>True\<close> and 0.
\<close>

theorem call_success_returns_None:
  "call (example_os [(''/photos'', [], [''photo.CR2''])] \<lparr>returncode = 0, stderr = Some []\<rparr>)
        NoInterrupt [example_worker] example_args
     = (Inr PyNone,
        \<lparr>v_result = True, v_extensions = [(''cr2'', 1)],
         v_queue = \<lparr>q_data = [''/photos/photo.CR2''], q_completed = True\<rparr>, v_failed = [],
         threads = [thread_start (new_worker default_dcraw_path 0)], out = []\<rparr>)
   \<and> main (example_os [(''/photos'', [], [''photo.CR2''])] \<lparr>returncode = 0, stderr = Some []\<rparr>)
        NoInterrupt [example_worker] example_args = 1
   \<and> run (example_os [(''/photos'', [], [''photo.CR2''])] \<lparr>returncode = 0, stderr = Some []\<rparr>)
        (thread_start (new_worker default_dcraw_path 0))
        \<lparr>q_data = [''/photos/photo.CR2''], q_completed = True\<rparr>
     = (Finished, example_worker, \<lparr>q_data = [], q_completed = True\<rparr>)"
proof -
  let ?sys = "example_os [(''/photos'', [], [''photo.CR2''])] \<lparr>returncode = 0, stderr = Some []\<rparr>"
  have c: "call ?sys NoInterrupt [example_worker] example_args
     = (Inr PyNone,
        \<lparr>v_result = True, v_extensions = [(''cr2'', 1)],
         v_queue = \<lparr>q_data = [''/photos/photo.CR2''], q_completed = True\<rparr>, v_failed = [],
         threads = [thread_start (new_worker default_dcraw_path 0)], out = []\<rparr>)"
    by code_simp
  have r: "run ?sys (thread_start (new_worker default_dcraw_path 0))
        \<lparr>q_data = [''/photos/photo.CR2''], q_completed = True\<rparr>
     = (Finished, example_worker, \<lparr>q_data = [], q_completed = True\<rparr>)"
    by code_simp
  show ?thesis
    using c r by (simp add: main_def)
qed


lemma command_ignores_files:
  "command (sys\<lparr>isfile := f, access_X_OK := g\<rparr>) w p = command sys w p"
  by (simp add: command_def)

lemma run_loop_ignores_files:
  "run_loop (sys\<lparr>isfile := f, access_X_OK := g\<rparr>) w q = run_loop sys w q"
proof (induction sys w q rule: run_loop.induct)
  case (1 sys w q)
  show ?case
  proof (cases "pop q")
    case (Pair r q')
    show ?thesis
    proof (cases r)
      case Waits
      with Pair show ?thesis by simp
    next
      case (Returns x)
      show ?thesis
      proof (cases x)
        case None
        with Pair Returns show ?thesis by simp
      next
        case (Some path)
        show ?thesis
        proof (cases "command sys w path")
          case (Inl e)
          with Pair Returns Some show ?thesis by (simp add: command_ignores_files)
        next
          case (Inr w')
          show ?thesis
            using "1.IH" [OF Pair [symmetric] Returns Some Inr] Pair Returns Some Inr
            by (simp add: command_ignores_files)
        qed
      qed
    qed
  qed
qed

lemma init_raises_iff:
  "(\<exists>m. WorkerThread_init sys nm path = Inl (AppError m))
     \<longleftrightarrow> (\<not> isfile sys path \<or> \<not> access_X_OK sys path)"
  by (simp add: WorkerThread_init_def)

lemma call_construction_fails:
  assumes "isdir sys (dir a)" and "0 < workers a"
    and "\<not> isfile sys (dcraw_binary a) \<or> \<not> access_X_OK sys (dcraw_binary a)"
  shows "\<exists>m. call sys intr joined a = (Inr PyNone, frame_init\<lparr>out := [''Error: '' @ m @ [CHR 0x0A]]\<rparr>)"
proof -
  have "[0 ..< nat (workers a)] \<noteq> []"
    using assms(2) by simp
  then obtain m where "start_workers sys (dcraw_binary a) [0 ..< nat (workers a)] frame_init
      = (frame_init, Some (AppError m))"
    using start_workers_fail [OF assms(3)] by blast
  then have "call sys intr joined a = (Inr PyNone, frame_init\<lparr>out := [''Error: '' @ m @ [CHR 0x0A]]\<rparr>)"
    using assms(1)
    by (simp add: call_def try_body_def check_dir_def then_do_def except_AppError_def frame_init_def)
  then show ?thesis by blast
qed

text \<open>
  Claim C6. Constructing a worker raises \<open>AppError\<close> exactly when the decoder path is
  not a file or is not executable. \<open>run\<close> asks neither question again: it gives the
  same result whatever the two tests would answer later. In \<open>__call__\<close>, with a
  directory that passed its check and at least one worker asked for, a failing
  construction ends the call with one printed error message and nothing else: no thread
  started, no extension counted, nothing pushed, no failure merged.
\<close>

theorem construction_failure_aborts:
  "((\<exists>m. WorkerThread_init sys nm path = Inl (AppError m))
      \<longleftrightarrow> (\<not> isfile sys path \<or> \<not> access_X_OK sys path))
   \<and> run (sys\<lparr>isfile := f, access_X_OK := g\<rparr>) w q = run sys w q
   \<and> (isdir sys (dir a) \<and> 0 < workers a
        \<and> (\<not> isfile sys (dcraw_binary a) \<or> \<not> access_X_OK sys (dcraw_binary a))
      \<longrightarrow> (\<exists>m. call sys intr joined a
                 = (Inr PyNone,
                    \<lparr>v_result = False, v_extensions = [], v_queue = Queue_init, v_failed = [],
                     threads = [], out = [''Error: '' @ m @ [CHR 0x0A]]\<rparr>)))"
proof -
  have "run (sys\<lparr>isfile := f, access_X_OK := g\<rparr>) w q = run sys w q"
    by (simp only: run_def run_loop_ignores_files)
  moreover have "isdir sys (dir a) \<and> 0 < workers a
        \<and> (\<not> isfile sys (dcraw_binary a) \<or> \<not> access_X_OK sys (dcraw_binary a))
      \<longrightarrow> (\<exists>m. call sys intr joined a
                 = (Inr PyNone,
                    \<lparr>v_result = False, v_extensions = [], v_queue = Queue_init, v_failed = [],
                     threads = [], out = [''Error: '' @ m @ [CHR 0x0A]]\<rparr>))"
    using call_construction_fails [of sys a intr joined] by (auto simp: frame_init_def)
  ultimately show ?thesis
    using init_raises_iff by blast
qed

theorem construction_failure_aborts_witness:
  "WorkerThread_init ((example_os [(''/photos'', [], [''b.cr3''])] \<lparr>returncode = 0, stderr = Some []\<rparr>)
                        \<lparr>access_X_OK := (\<lambda>p. False)\<rparr>) ''Thread-1'' default_dcraw_path
     = Inl (AppError ''File '/usr/bin/dcraw_emu' ist not executable'')
   \<and> call ((example_os [(''/photos'', [], [''b.cr3''])] \<lparr>returncode = 0, stderr = Some []\<rparr>)
              \<lparr>access_X_OK := (\<lambda>p. False)\<rparr>) NoInterrupt [] (example_args\<lparr>workers := 4\<rparr>)
     = (Inr PyNone,
        \<lparr>v_result = False, v_extensions = [], v_queue = Queue_init, v_failed = [], threads = [],
         out = [''Error: File '/usr/bin/dcraw_emu' ist not executable'' @ [CHR 0x0A]]\<rparr>)
   \<and> WorkerThread_init (example_os [] \<lparr>returncode = 0, stderr = Some []\<rparr>) ''Thread-1'' default_dcraw_path
     = Inr (new_worker default_dcraw_path 0)"
proof -
  let ?sys = "(example_os [(''/photos'', [], [''b.cr3''])] \<lparr>returncode = 0, stderr = Some []\<rparr>)
                \<lparr>access_X_OK := (\<lambda>p. False)\<rparr>"
  let ?a = "example_args\<lparr>workers := 4\<rparr>"
  have i: "WorkerThread_init ?sys ''Thread-1'' default_dcraw_path
     = Inl (AppError ''File '/usr/bin/dcraw_emu' ist not executable'')"
    by code_simp
  have j: "WorkerThread_init (example_os [] \<lparr>returncode = 0, stderr = Some []\<rparr>) ''Thread-1'' default_dcraw_path
     = Inr (new_worker default_dcraw_path 0)"
    by code_simp
  have h: "isdir ?sys (dir ?a) \<and> 0 < workers ?a
        \<and> (\<not> isfile ?sys (dcraw_binary ?a) \<or> \<not> access_X_OK ?sys (dcraw_binary ?a))"
    by (simp add: example_os_def example_args_def)
  have "\<exists>m. call ?sys NoInterrupt [] ?a
                 = (Inr PyNone,
                    \<lparr>v_result = False, v_extensions = [], v_queue = Queue_init, v_failed = [],
                     threads = [], out = [''Error: '' @ m @ [CHR 0x0A]]\<rparr>)"
    using construction_failure_aborts [of ?sys "''Thread-1''" default_dcraw_path "\<lambda>p. True" "\<lambda>p. True"
        example_worker Queue_init ?a NoInterrupt "[]"] h by blast
  moreover have "call ?sys NoInterrupt [] ?a
     = (Inr PyNone,
        \<lparr>v_result = False, v_extensions = [], v_queue = Queue_init, v_failed = [], threads = [],
         out = [''Error: File '/usr/bin/dcraw_emu' ist not executable'' @ [CHR 0x0A]]\<rparr>)"
    by code_simp
  ultimately show ?thesis
    using i j by simp
qed

lemma report_fields:
  "v_extensions (fst (report a s)) = v_extensions s"
  "v_queue (fst (report a s)) = v_queue s"
  "v_failed (fst (report a s)) = v_failed s"
  "snd (report a s) = None"
  by (simp_all add: report_def Let_def)

lemma scan_file_threads:
  "scan_file bf (s\<lparr>threads := t\<rparr>) = (scan_file bf s)\<lparr>threads := t\<rparr>"
  by (simp add: scan_file_def Let_def)

lemma fold_scan_threads:
  "fold scan_file fs (s\<lparr>threads := t\<rparr>) = (fold scan_file fs s)\<lparr>threads := t\<rparr>"
  by (induction fs arbitrary: s) (simp_all add: scan_file_threads)

lemma call_no_interrupt:
  assumes "isdir sys (dir a)"
    and "workers a \<le> 0 \<or> (isfile sys (dcraw_binary a) \<and> access_X_OK sys (dcraw_binary a))"
  shows "v_extensions (snd (call sys NoInterrupt joined a))
           = v_extensions (fold scan_file (walk_files sys (dir a)) frame_init)"
    and "v_queue (snd (call sys NoInterrupt joined a))
           = completed (v_queue (fold scan_file (walk_files sys (dir a)) frame_init))"
    and "list_all (\<lambda>t. started t \<and> failed t \<noteq> None) joined \<Longrightarrow>
         fst (call sys NoInterrupt joined a) = Inr PyNone
         \<and> v_result (snd (call sys NoInterrupt joined a))
             = (v_failed (snd (call sys NoInterrupt joined a)) = [])"
proof -
  let ?s1 = "frame_init\<lparr>threads := threads frame_init @ map (\<lambda>i. thread_start (new_worker (dcraw_binary a) i)) [0 ..< nat (workers a)]\<rparr>"
  let ?fs = "walk_files sys (dir a)"
  let ?s2 = "(fold scan_file ?fs ?s1)\<lparr>v_queue := completed (v_queue (fold scan_file ?fs ?s1)), v_failed := []\<rparr>"
  obtain s3 e where j: "join_all joined ?s2 = (s3, e)" by (cases "join_all joined ?s2")
  obtain s4 e' where r: "report a s3 = (s4, e')" by (cases "report a s3")
  have e': "e' = None"
    using report_fields(4) [of a s3] r by simp
  have tb: "try_body sys NoInterrupt joined a frame_init
      = (case e of None \<Rightarrow> (s4, None) | Some x \<Rightarrow> (s3, Some x))"
    using j r e'
    by (simp add: try_body_started [OF assms] scan_def then_do_def join_threads_def split: option.splits)
  have e: "e = None \<or> e = Some RuntimeError \<or> e = Some AttributeError"
    using join_all_error [of joined ?s2] j by simp
  have f3: "v_extensions s3 = v_extensions ?s2" "v_queue s3 = v_queue ?s2" "v_result s3 = v_result ?s2"
    using join_all_fields(1,2,3) [of joined ?s2] j by simp_all
  have f4: "v_extensions s4 = v_extensions s3" "v_queue s4 = v_queue s3"
    using report_fields(1,2) [of a s3] r by simp_all
  have same: "fold scan_file ?fs ?s1 = (fold scan_file ?fs frame_init)\<lparr>threads := threads ?s1\<rparr>"
    by (simp add: fold_scan_threads)
  have c: "snd (call sys NoInterrupt joined a) = (case e of None \<Rightarrow> s4 | Some x \<Rightarrow> s3)"
    using e by (auto simp: call_def tb)
  show "v_extensions (snd (call sys NoInterrupt joined a))
           = v_extensions (fold scan_file (walk_files sys (dir a)) frame_init)"
    using e by (auto simp: c f3 f4 same)
  show "v_queue (snd (call sys NoInterrupt joined a))
           = completed (v_queue (fold scan_file (walk_files sys (dir a)) frame_init))"
    using e by (auto simp: c f3 f4 same)
  show "list_all (\<lambda>t. started t \<and> failed t \<noteq> None) joined \<Longrightarrow>
         fst (call sys NoInterrupt joined a) = Inr PyNone
         \<and> v_result (snd (call sys NoInterrupt joined a))
             = (v_failed (snd (call sys NoInterrupt joined a)) = [])"
  proof -
    assume "list_all (\<lambda>t. started t \<and> failed t \<noteq> None) joined"
    then have n: "e = None"
      using join_all_ok [of joined ?s2] j by simp
    have "\<not> v_result s3"
      by (simp add: f3 fold_scan_fields frame_init_def)
    then have "v_result s4 = (v_failed s4 = [])"
      using report_result [of s3 a] r by simp
    then show ?thesis
      using n by (simp add: call_def tb)
  qed
qed

lemma scan_file_step:
  "v_extensions (scan_file (b, f) s) = dict_incr (file_ext f) (v_extensions s)"
  "q_data (v_queue (scan_file (b, f) s)) =
     (if file_ext f \<in> set raw_ext then q_data (v_queue s) @ [path_join b f] else q_data (v_queue s))"
  by (simp_all add: scan_file_def Let_def push_def)

lemma count_of_incr: "count_of (dict_incr e d) e' = (if e' = e then count_of d e + 1 else count_of d e')"
  by (simp add: count_of_def dict_incr_get)

text \<open>
  Claim C8. Handling one file adds one to the count of its lower-cased extension,
  whatever the extension, and appends the joined path to the queue exactly when that
  extension is one of \<open>crw\<close>, \<open>cr2\<close>, \<open>cr3\<close>, \<open>rw2\<close>, \<open>dng\<close>, \<open>raf\<close>. When the
  checks pass and no interrupt arrives, the table \<open>__call__\<close> ends with holds for each
  extension the number of files that have it, and the coordinator has pushed the paths of
  the RAW files, in the order of the walk.
\<close>

theorem traversal_counts_and_enqueues:
  assumes "isdir sys (dir a)"
    and "workers a \<le> 0 \<or> (isfile sys (dcraw_binary a) \<and> access_X_OK sys (dcraw_binary a))"
  shows "count_of (v_extensions (scan_file (b, f) s)) (file_ext f)
           = count_of (v_extensions s) (file_ext f) + 1
       \<and> q_data (v_queue (scan_file (b, f) s))
           = (if file_ext f \<in> {''crw'', ''cr2'', ''cr3'', ''rw2'', ''dng'', ''raf''}
              then q_data (v_queue s) @ [path_join b f] else q_data (v_queue s))
       \<and> file_ext f = lower (drop 1 (snd (splitext f)))
       \<and> dict_get (v_extensions (snd (call sys NoInterrupt joined a))) e
           = (if filter (\<lambda>bf. file_ext (snd bf) = e) (walk_files sys (dir a)) = [] then None
              else Some (length (filter (\<lambda>bf. file_ext (snd bf) = e) (walk_files sys (dir a)))))
       \<and> q_data (v_queue (snd (call sys NoInterrupt joined a)))
           = map (\<lambda>bf. path_join (fst bf) (snd bf))
               (filter (\<lambda>bf. file_ext (snd bf) \<in> {''crw'', ''cr2'', ''cr3'', ''rw2'', ''dng'', ''raf''})
                  (walk_files sys (dir a)))"
proof -
  have r: "set raw_ext = {''crw'', ''cr2'', ''cr3'', ''rw2'', ''dng'', ''raf''}"
    by (simp add: raw_ext_def)
  have 1: "count_of (v_extensions (scan_file (b, f) s)) (file_ext f)
           = count_of (v_extensions s) (file_ext f) + 1"
    by (simp add: scan_file_step(1) count_of_incr)
  have 2: "q_data (v_queue (scan_file (b, f) s))
           = (if file_ext f \<in> {''crw'', ''cr2'', ''cr3'', ''rw2'', ''dng'', ''raf''}
              then q_data (v_queue s) @ [path_join b f] else q_data (v_queue s))"
    unfolding r [symmetric] by (rule scan_file_step(2))
  have 3: "dict_get (v_extensions (snd (call sys NoInterrupt joined a))) e
           = (if filter (\<lambda>bf. file_ext (snd bf) = e) (walk_files sys (dir a)) = [] then None
              else Some (length (filter (\<lambda>bf. file_ext (snd bf) = e) (walk_files sys (dir a)))))"
    by (simp add: call_no_interrupt(1) [OF assms] fold_scan_ext count_of_def)
       (simp add: frame_init_def dict_get_def)
  have 4: "q_data (v_queue (snd (call sys NoInterrupt joined a)))
           = map (\<lambda>bf. path_join (fst bf) (snd bf))
               (filter (\<lambda>bf. file_ext (snd bf) \<in> {''crw'', ''cr2'', ''cr3'', ''rw2'', ''dng'', ''raf''})
                  (walk_files sys (dir a)))"
    unfolding r [symmetric]
    by (simp add: call_no_interrupt(2) [OF assms] completed_def fold_scan_queue)
       (simp add: frame_init_def Queue_init_def)
  show ?thesis
    using 1 2 3 4 by (simp add: file_ext_def)
qed

theorem traversal_counts_and_enqueues_witness:
  "v_extensions (snd (call (example_os [(''/photos'', [], [''a.jpg'', ''b.cr3''])]
                             \<lparr>returncode = 1, stderr = Some ''x''\<rparr>)
          NoInterrupt [example_worker] example_args))
     = [(''jpg'', 1), (''cr3'', 1)]
   \<and> q_data (v_queue (snd (call (example_os [(''/photos'', [], [''a.jpg'', ''b.cr3''])]
                                   \<lparr>returncode = 1, stderr = Some ''x''\<rparr>)
          NoInterrupt [example_worker] example_args)))
     = [''/photos/b.cr3'']
   \<and> dict_get (v_extensions (snd (call (example_os [(''/photos'', [], [''a.jpg'', ''b.cr3''])]
                                        \<lparr>returncode = 1, stderr = Some ''x''\<rparr>)
          NoInterrupt [example_worker] example_args))) ''cr3'' = Some 1
   \<and> file_ext ''IMG_1.DNG'' = ''dng''"
proof -
  let ?sys = "example_os [(''/photos'', [], [''a.jpg'', ''b.cr3''])] \<lparr>returncode = 1, stderr = Some ''x''\<rparr>"
  have 1: "isdir ?sys (dir example_args)"
    by (simp add: example_os_def)
  have 2: "workers example_args \<le> 0
      \<or> (isfile ?sys (dcraw_binary example_args) \<and> access_X_OK ?sys (dcraw_binary example_args))"
    by (simp add: example_os_def)
  have c: "v_extensions (snd (call ?sys NoInterrupt [example_worker] example_args))
             = [(''jpg'', 1), (''cr3'', 1)]"
    "q_data (v_queue (snd (call ?sys NoInterrupt [example_worker] example_args))) = [''/photos/b.cr3'']"
    by code_simp+
  have x: "file_ext ''IMG_1.DNG'' = ''dng''"
    by code_simp
  show ?thesis
    using traversal_counts_and_enqueues [OF 1 2, of "''/photos''" "''IMG_1.DNG''" frame_init
        "[example_worker]" "''cr3''"] c x
    by (simp add: dict_get_def)
qed


section \<open>Properties of the queue under interleaving\<close>

lemma stuck_no_step: "stuck s \<Longrightarrow> step t s = None"
proof (cases t)
  case Main
  assume "stuck s"
  then show ?thesis using Main by (simp add: stuck_def step_main_def)
next
  case (Worker i)
  assume st: "stuck s"
  show ?thesis
  proof (cases "i < length (poppers s)")
    case True
    then have "pc (poppers s ! i) = Waiting \<or> pc (poppers s ! i) = Done"
      using st by (simp add: stuck_def list_all_length)
    then show ?thesis
      using Worker True by (auto simp: step_worker_def Let_def)
  next
    case False
    then show ?thesis using Worker by (simp add: step_worker_def)
  qed
qed

lemma stuck_forever: "stuck s \<Longrightarrow> ts \<noteq> [] \<Longrightarrow> exec ts s = None"
  by (cases ts) (simp_all add: stuck_no_step)

text \<open>
  The steps of one worker, taken with no step of another thread in between, are the
  method \<open>pop\<close> of the first section.
\<close>

lemma pop_as_steps:
  "(case pop q of
      (Returns (Some x), q') \<Rightarrow>
        exec [Worker 0] \<lparr>sq = q, todo = td, poppers = [\<lparr>pc = AtSem, got = g\<rparr>]\<rparr>
          = Some \<lparr>sq = q', todo = td, poppers = [\<lparr>pc = AtSem, got = g @ [x]\<rparr>]\<rparr>
    | (Returns None, q') \<Rightarrow>
        exec [Worker 0, Worker 0] \<lparr>sq = q, todo = td, poppers = [\<lparr>pc = AtSem, got = g\<rparr>]\<rparr>
          = Some \<lparr>sq = q', todo = td, poppers = [\<lparr>pc = Done, got = g\<rparr>]\<rparr>
    | (Waits, q') \<Rightarrow>
        exec [Worker 0, Worker 0, Worker 0] \<lparr>sq = q, todo = td, poppers = [\<lparr>pc = AtSem, got = g\<rparr>]\<rparr>
          = Some \<lparr>sq = q', todo = td, poppers = [\<lparr>pc = Waiting, got = g\<rparr>]\<rparr>)"
  by (cases "q_data q") (simp_all add: pop_def step_worker_def)

text \<open>
  What does hold under every schedule: each entry is with exactly one worker, or in the
  list, or still to be appended. No entry is delivered twice, and none leaves the list
  but to a worker.
\<close>

lemma got_update:
  "i < length ps \<Longrightarrow> got p' = got (ps ! i) @ ys \<Longrightarrow>
   mset (concat (map got (ps[i := p']))) = mset (concat (map got ps)) + mset ys"
proof (induction ps arbitrary: i)
  case Nil
  then show ?case by simp
next
  case (Cons p ps)
  then show ?case by (cases i) simp_all
qed

lemma got_wake: "got \<circ> wake = got"
  by (rule ext) (simp add: wake_def)

lemma step_keeps_entries:
  assumes "step t s = Some s'"
  shows "mset (delivered s') + mset (q_data (sq s')) + mset (pending (todo s'))
           = mset (delivered s) + mset (q_data (sq s)) + mset (pending (todo s))"
proof (cases t)
  case Main
  show ?thesis
  proof (cases "todo s")
    case Nil
    with assms Main show ?thesis by (simp add: step_main_def)
  next
    case (Cons i rest)
    with assms Main show ?thesis
      by (cases i) (auto simp: step_main_def delivered_def got_wake push_def completed_def)
  qed
next
  case (Worker i)
  show ?thesis
  proof (cases "i < length (poppers s)")
    case False
    with assms Worker show ?thesis by (simp add: step_worker_def)
  next
    case True
    show ?thesis
    proof (cases "pc (poppers s ! i)")
      case AtSem
      show ?thesis
      proof (cases "q_data (sq s)")
        case Nil
        with assms Worker True AtSem show ?thesis
          by (auto simp: step_worker_def Let_def delivered_def got_update [where ys = "[]"])
      next
        case (Cons x rest)
        with assms Worker True AtSem show ?thesis
          by (auto simp: step_worker_def Let_def delivered_def got_update [where ys = "[x]"])
      qed
    next
      case AtFlag
      with assms Worker True show ?thesis
        by (auto simp: step_worker_def Let_def delivered_def got_update [where ys = "[]"])
    next
      case AtWait
      with assms Worker True show ?thesis
        by (auto simp: step_worker_def Let_def delivered_def got_update [where ys = "[]"])
    next
      case Waiting
      with assms Worker True show ?thesis by (simp add: step_worker_def Let_def)
    next
      case Done
      with assms Worker True show ?thesis by (simp add: step_worker_def Let_def)
    qed
  qed
qed

lemma exec_keeps_entries:
  "exec ts s = Some s' \<Longrightarrow>
   mset (delivered s') + mset (q_data (sq s')) + mset (pending (todo s'))
     = mset (delivered s) + mset (q_data (sq s)) + mset (pending (todo s))"
proof (induction ts arbitrary: s)
  case Nil
  then show ?case by simp
next
  case (Cons t ts)
  then obtain s1 where s1: "step t s = Some s1" "exec ts s1 = Some s'"
    by (auto split: option.splits)
  from step_keeps_entries [OF s1(1)] Cons.IH [OF s1(2)]
  show ?case by simp
qed

lemma pending_pushes: "pending (concat (map steps_of (map Push xs @ [Completed]))) = xs"
  by (induction xs) simp_all

lemma never_twice:
  assumes "exec ts (start (map Push xs @ [Completed]) n) = Some s"
  shows "mset (delivered s) + mset (q_data (sq s)) + mset (pending (todo s)) = mset xs"
proof -
  from exec_keeps_entries [OF assms]
  show ?thesis
    by (simp add: start_def pending_pushes delivered_def Queue_init_def del: map_append)
qed

lemma step_length: "step t s = Some s' \<Longrightarrow> length (poppers s') = length (poppers s)"
proof (cases t)
  case Main
  assume "step t s = Some s'"
  with Main show ?thesis
    by (auto simp: step_main_def split: list.splits instr.splits)
next
  case (Worker i)
  assume "step t s = Some s'"
  with Worker show ?thesis
    by (auto simp: step_worker_def Let_def split: if_splits pc.splits list.splits)
qed

text \<open>
  With a single worker the entries arrive in the order of the pushes, under every
  schedule.
\<close>

lemma single_step_order:
  assumes "step t s = Some s'" and "length (poppers s) = 1"
  shows "got (poppers s' ! 0) @ q_data (sq s') @ pending (todo s')
           = got (poppers s ! 0) @ q_data (sq s) @ pending (todo s)"
proof (cases t)
  case Main
  obtain p where p: "poppers s = [p]"
    using assms(2) by (cases "poppers s") simp_all
  show ?thesis
  proof (cases "todo s")
    case Nil
    with assms Main show ?thesis by (simp add: step_main_def)
  next
    case (Cons i rest)
    with assms Main p show ?thesis
      by (cases i) (auto simp: step_main_def push_def completed_def wake_def)
  qed
next
  case (Worker i)
  obtain p where p: "poppers s = [p]"
    using assms(2) by (cases "poppers s") simp_all
  show ?thesis
    using assms(1) Worker p
    by (auto simp: step_worker_def Let_def split: if_splits pc.splits list.splits)
qed

lemma single_exec_order:
  "exec ts s = Some s' \<Longrightarrow> length (poppers s) = 1 \<Longrightarrow>
   got (poppers s' ! 0) @ q_data (sq s') @ pending (todo s')
     = got (poppers s ! 0) @ q_data (sq s) @ pending (todo s)"
proof (induction ts arbitrary: s)
  case Nil
  then show ?case by simp
next
  case (Cons t ts)
  then obtain s1 where s1: "step t s = Some s1" "exec ts s1 = Some s'"
    by (auto split: option.splits)
  have "length (poppers s1) = 1"
    using step_length [OF s1(1)] Cons.prems(2) by simp
  then show ?case
    using Cons.IH [OF s1(2)] single_step_order [OF s1(1) Cons.prems(2)] by simp
qed

lemma single_popper_fifo:
  assumes "exec ts (start (map Push xs @ [Completed]) 1) = Some s"
  shows "got (poppers s ! 0) @ q_data (sq s) @ pending (todo s) = xs"
proof -
  have "length (poppers (start (map Push xs @ [Completed]) 1)) = 1"
    by (simp add: start_def)
  then show ?thesis
    using single_exec_order [OF assms]
    by (simp add: start_def pending_pushes Queue_init_def del: map_append)
qed

text \<open>
  When every worker begins to pop only after \<open>completed\<close> has returned, the workers
  that have all ended have got every entry between them.
\<close>

lemma step_settled:
  assumes "step t s = Some s'" and "settled s"
  shows "settled s'"
proof (cases t)
  case Main
  with assms show ?thesis by (simp add: settled_def step_main_def)
next
  case (Worker i)
  show ?thesis
  proof (cases "q_data (sq s)")
    case Nil
    with assms Worker show ?thesis
      by (auto simp: settled_def step_worker_def Let_def split: if_splits pc.splits)
  next
    case (Cons x rest)
    then have all: "list_all (\<lambda>p. pc p = AtSem) (poppers s)"
      using assms(2) by (simp add: settled_def)
    have i: "i < length (poppers s)"
      using assms(1) Worker by (simp add: step_worker_def split: if_splits)
    then have "pc (poppers s ! i) = AtSem"
      using all by (simp add: list_all_length)
    then have s': "s' = s\<lparr>sq := (sq s)\<lparr>q_data := rest\<rparr>,
                           poppers := (poppers s)[i := (poppers s ! i)\<lparr>got := got (poppers s ! i) @ [x]\<rparr>]\<rparr>"
      using assms(1) Worker i Cons by (simp add: step_worker_def Let_def)
    have "list_all (\<lambda>p. pc p = AtSem) ((poppers s)[i := (poppers s ! i)\<lparr>got := got (poppers s ! i) @ [x]\<rparr>])"
      using all i by (auto simp: list_all_length nth_list_update)
    then show ?thesis
      using assms(2) by (simp add: s' settled_def)
  qed
qed

lemma exec_settled: "exec ts s = Some s' \<Longrightarrow> settled s \<Longrightarrow> settled s'"
proof (induction ts arbitrary: s)
  case Nil
  then show ?case by simp
next
  case (Cons t ts)
  then obtain s1 where s1: "step t s = Some s1" "exec ts s1 = Some s'"
    by (auto split: option.splits)
  show ?case
    using Cons.IH [OF s1(2) step_settled [OF s1(1) Cons.prems(2)]] .
qed

lemma exec_length: "exec ts s = Some s' \<Longrightarrow> length (poppers s') = length (poppers s)"
proof (induction ts arbitrary: s)
  case Nil
  then show ?case by simp
next
  case (Cons t ts)
  then obtain s1 where s1: "step t s = Some s1" "exec ts s1 = Some s'"
    by (auto split: option.splits)
  show ?case
    using Cons.IH [OF s1(2)] step_length [OF s1(1)] by simp
qed

lemma late_poppers_get_everything:
  assumes "exec ts \<lparr>sq = \<lparr>q_data = xs, q_completed = True\<rparr>, todo = [],
                    poppers = replicate n \<lparr>pc = AtSem, got = []\<rparr>\<rparr> = Some s"
    and "list_all (\<lambda>p. pc p = Done) (poppers s)" and "0 < n"
  shows "q_data (sq s) = [] \<and> mset (delivered s) = mset xs"
proof -
  let ?s0 = "\<lparr>sq = \<lparr>q_data = xs, q_completed = True\<rparr>, todo = [],
              poppers = replicate n \<lparr>pc = AtSem, got = []\<rparr>\<rparr>"
  have "settled ?s0"
    by (simp add: settled_def list_all_length)
  then have st: "settled s"
    using exec_settled [OF assms(1)] by simp
  have len: "length (poppers s) = n"
    using exec_length [OF assms(1)] by simp
  then have "pc (poppers s ! 0) = Done"
    using assms(2,3) by (simp add: list_all_length)
  then have "\<not> list_all (\<lambda>p. pc p = AtSem) (poppers s)"
    using len assms(3) by (auto simp: list_all_length)
  then have d: "q_data (sq s) = []"
    using st by (simp add: settled_def)
  have t: "todo s = []"
    using st by (simp add: settled_def)
  have "mset (delivered s) + mset (q_data (sq s)) + mset (pending (todo s))
      = mset (delivered ?s0) + mset (q_data (sq ?s0)) + mset (pending (todo ?s0))"
    using exec_keeps_entries [OF assms(1)] by simp
  then show ?thesis
    using d t by (simp add: delivered_def)
qed

text \<open>
  Claim C3, on the code. One worker is in \<open>pop\<close> on the empty queue while the main
  thread calls \<open>completed\<close>. The worker finds the list empty and reads the flag as not
  set; the main thread sets the flag and notifies, with nobody waiting yet; the worker
  enters \<open>wait\<close>. No thread has a step left: the worker waits for a notification that
  has already been given. The same schedule with \<open>push\<close> in place of \<open>completed\<close>
  leaves the worker waiting beside a queue that holds an entry.
\<close>

theorem missed_wakeup_deadlock:
  "exec [Worker 0, Worker 0, Main, Main, Worker 0] (start [Completed :: string op] 1)
     = Some \<lparr>sq = \<lparr>q_data = [], q_completed = True\<rparr>, todo = [],
             poppers = [\<lparr>pc = Waiting, got = []\<rparr>]\<rparr>
   \<and> stuck \<lparr>sq = \<lparr>q_data = [] :: string list, q_completed = True\<rparr>, todo = [],
             poppers = [\<lparr>pc = Waiting, got = []\<rparr>]\<rparr>
   \<and> exec [Worker 0, Worker 0, Main, Main, Worker 0] (start [Push ''/photos/a.cr3''] 1)
     = Some \<lparr>sq = \<lparr>q_data = [''/photos/a.cr3''], q_completed = False\<rparr>, todo = [],
             poppers = [\<lparr>pc = Waiting, got = []\<rparr>]\<rparr>
   \<and> stuck \<lparr>sq = \<lparr>q_data = [''/photos/a.cr3''], q_completed = False\<rparr>, todo = [],
             poppers = [\<lparr>pc = Waiting, got = []\<rparr>]\<rparr>"
  by code_simp

text \<open>
  Claim C4, on the code. One worker is in \<open>pop\<close>; the main thread pushes one path and
  calls \<open>completed\<close>. The worker finds the list empty; the main thread appends the
  path, notifies, sets the flag and notifies; the worker reads the flag as set and
  \<open>pop\<close> returns \<open>None\<close>. Every thread has ended and the path is still in the list:
  it was pushed before the single \<open>completed\<close> and no worker will ever get it.
\<close>

theorem entry_dropped_at_completion:
  "exec [Worker 0, Main, Main, Main, Main, Worker 0] (start [Push ''/photos/a.cr3'', Completed] 1)
     = Some \<lparr>sq = \<lparr>q_data = [''/photos/a.cr3''], q_completed = True\<rparr>, todo = [],
             poppers = [\<lparr>pc = Done, got = []\<rparr>]\<rparr>
   \<and> stuck \<lparr>sq = \<lparr>q_data = [''/photos/a.cr3''], q_completed = True\<rparr>, todo = [],
             poppers = [\<lparr>pc = Done, got = []\<rparr>]\<rparr>"
  by code_simp

text \<open>
  Claim C7, on the code. One worker is in \<open>pop\<close> while the coordinator scans. The
  worker finds the list empty and reads the flag as not set; the main thread appends a
  first path and notifies, with nobody waiting yet. \<open>KeyboardInterrupt\<close> arrives: the
  handler clears the queue, sets the flag and notifies, again with nobody waiting; then
  the worker enters \<open>wait\<close>. The queue is empty and marked complete, no thread has a
  step left, and the worker is inside \<open>wait\<close>: it does not see the \<open>None\<close> of the
  completed queue.
\<close>

theorem interrupt_leaves_worker_waiting:
  "exec [Worker 0, Worker 0, Main, Main]
        (start [Push ''/photos/a.cr3'', Push ''/photos/b.cr3'', Completed] 1)
     = Some \<lparr>sq = \<lparr>q_data = [''/photos/a.cr3''], q_completed = False\<rparr>,
             todo = [Append ''/photos/b.cr3'', Notify, SetCompleted, Notify],
             poppers = [\<lparr>pc = AtWait, got = []\<rparr>]\<rparr>
   \<and> exec [Main, Main, Worker 0]
        (keyboard_interrupt
           \<lparr>sq = \<lparr>q_data = [''/photos/a.cr3''], q_completed = False\<rparr>,
            todo = [Append ''/photos/b.cr3'', Notify, SetCompleted, Notify],
            poppers = [\<lparr>pc = AtWait, got = []\<rparr>]\<rparr>)
     = Some \<lparr>sq = \<lparr>q_data = [], q_completed = True\<rparr>, todo = [],
             poppers = [\<lparr>pc = Waiting, got = []\<rparr>]\<rparr>
   \<and> stuck \<lparr>sq = \<lparr>q_data = [] :: string list, q_completed = True\<rparr>, todo = [],
             poppers = [\<lparr>pc = Waiting, got = []\<rparr>]\<rparr>"
  by code_simp

end
